theory Spec2Isabelle
  imports Complex_Main "HOL-Library.Word"
begin

unbundle bit_operations_syntax

section \<open>Arrays and Python exceptions\<close>

text \<open>
  The tool works on NumPy arrays. An array is modelled by its nested rows: one, two or
  three dimensions (an image is \<open>H \<times> W\<close> for a single channel and \<open>H \<times> W \<times> C\<close> for
  several). Samples of the pixel paths are 8-bit unsigned (\<open>uint8\<close>).
\<close>

type_synonym u8 = "8 word"

datatype 'a ndarray =
    Nd1 "'a list"
  | Nd2 "'a list list"
  | Nd3 "'a list list list"

datatype py_error =
    ValueError | OverflowError | IndexError | OSError | EOFError

section \<open>Pixel-level encryption\<close>

text \<open>\<open>np.flipud\<close>: the entries along the first axis in reverse order.\<close>

fun np_flipud :: "'a ndarray \<Rightarrow> 'a ndarray" where
  "np_flipud (Nd1 xs) = Nd1 (rev xs)"
| "np_flipud (Nd2 rows) = Nd2 (rev rows)"
| "np_flipud (Nd3 rows) = Nd3 (rev rows)"

fun map_samples :: "('a \<Rightarrow> 'b) \<Rightarrow> 'a ndarray \<Rightarrow> 'b ndarray" where
  "map_samples f (Nd1 xs) = Nd1 (map f xs)"
| "map_samples f (Nd2 rows) = Nd2 (map (map f) rows)"
| "map_samples f (Nd3 rows) = Nd3 (map (map (map f)) rows)"

text \<open>
  \<open>img_array ^ key\<close> for a \<open>uint8\<close> array and a Python integer: a key in \<open>[0,255]\<close> is
  taken as a \<open>uint8\<close> scalar and XORed with every sample. A key that does not fit is
  refused by NumPy 2 with \<open>OverflowError\<close> (earlier versions widen the type of the
  result instead); \<open>main\<close> only passes keys in \<open>[0,255]\<close>.
\<close>

definition np_xor :: "u8 ndarray \<Rightarrow> int \<Rightarrow> py_error + u8 ndarray" where
  "np_xor a key =
     (if 0 \<le> key \<and> key \<le> 255
      then Inr (map_samples (\<lambda>s. s XOR word_of_int key) a)
      else Inl OverflowError)"

definition encrypt_pixels :: "u8 ndarray \<Rightarrow> int \<Rightarrow> py_error + u8 ndarray" where
  "encrypt_pixels img_array key = np_xor (np_flipud img_array) key"

definition decrypt_pixels :: "u8 ndarray \<Rightarrow> int \<Rightarrow> py_error + u8 ndarray" where
  "decrypt_pixels img_array key = map_sum id np_flipud (np_xor img_array key)"

subsection \<open>The contract in the specification's words\<close>

text \<open>
  The specification describes the codec by a vertical flip (row \<open>i\<close> of the result is
  row \<open>H - 1 - i\<close> of the input) and an exclusive-or of every sample with the key,
  bit by bit. Both are written here from those words, independently of the model of the
  code above, and compared with it below.
\<close>

definition reverse_rows :: "'a list \<Rightarrow> 'a list" where
  "reverse_rows rows = map (\<lambda>i. rows ! (length rows - 1 - i)) [0..<length rows]"

fun flip_vertical_spec :: "'a ndarray \<Rightarrow> 'a ndarray" where
  "flip_vertical_spec (Nd1 xs) = Nd1 (reverse_rows xs)"
| "flip_vertical_spec (Nd2 rows) = Nd2 (reverse_rows rows)"
| "flip_vertical_spec (Nd3 rows) = Nd3 (reverse_rows rows)"

definition xor_bits :: "u8 \<Rightarrow> u8 \<Rightarrow> u8" where
  "xor_bits s k = horner_sum of_bool 2 (map (\<lambda>n. bit s n \<noteq> bit k n) [0..<8])"

definition xor_key_spec :: "u8 ndarray \<Rightarrow> int \<Rightarrow> u8 ndarray" where
  "xor_key_spec a key = map_samples (\<lambda>s. xor_bits s (word_of_int key)) a"

subsection \<open>Array objects in a store\<close>

text \<open>
  To speak about aliasing, an array object is a reference to a buffer in a store,
  together with the direction in which its first axis is read: \<open>np.flipud\<close> returns a
  view on the same buffer, and \<open>^\<close> allocates a new buffer for its result.
  Addresses below \<open>next_free\<close> are the allocated ones.
\<close>

record store =
  mem :: "nat \<Rightarrow> u8 ndarray"
  next_free :: nat

record array_obj =
  buffer :: nat
  flipped :: bool

definition array_value :: "store \<Rightarrow> array_obj \<Rightarrow> u8 ndarray" where
  "array_value h a = (if flipped a then np_flipud (mem h (buffer a)) else mem h (buffer a))"

definition np_flipud_st :: "array_obj \<Rightarrow> array_obj" where
  "np_flipud_st a = a\<lparr>flipped := \<not> flipped a\<rparr>"

definition np_xor_st :: "store \<Rightarrow> array_obj \<Rightarrow> int \<Rightarrow> (py_error + array_obj) \<times> store" where
  "np_xor_st h a key =
     (case np_xor (array_value h a) key of
        Inl e \<Rightarrow> (Inl e, h)
      | Inr r \<Rightarrow>
          (Inr \<lparr>buffer = next_free h, flipped = False\<rparr>,
           h\<lparr>mem := (mem h)(next_free h := r), next_free := Suc (next_free h)\<rparr>))"

definition encrypt_pixels_st ::
  "store \<Rightarrow> array_obj \<Rightarrow> int \<Rightarrow> (py_error + array_obj) \<times> store" where
  "encrypt_pixels_st h img_array key = np_xor_st h (np_flipud_st img_array) key"

definition decrypt_pixels_st ::
  "store \<Rightarrow> array_obj \<Rightarrow> int \<Rightarrow> (py_error + array_obj) \<times> store" where
  "decrypt_pixels_st h img_array key =
     (case np_xor_st h img_array key of (r, h') \<Rightarrow> (map_sum id np_flipud_st r, h'))"

text \<open>A store holding one image, and the array object that refers to it.\<close>

definition h0 :: store where
  "h0 = \<lparr>mem = (\<lambda>_. Nd1 [])(0 := Nd2 [[10, 20], [30, 40]]), next_free = 1\<rparr>"

definition x0 :: array_obj where
  "x0 = \<lparr>buffer = 0, flipped = False\<rparr>"

section \<open>Fourier transform encryption\<close>

text \<open>
  NumPy computes the transforms in double precision. The model computes them in the
  real and complex numbers: it says what the code computes up to the rounding of
  floating-point arithmetic, and nothing about that rounding.
\<close>

definition width :: "'a list list \<Rightarrow> nat" where
  "width rows = (case rows of [] \<Rightarrow> 0 | r # _ \<Rightarrow> length r)"

text \<open>
  The two-dimensional discrete Fourier transform of an \<open>M \<times> N\<close> array: the coefficient at
  \<open>(u, v)\<close> is the sum of \<open>a[m][n] * exp (dir * 2\<pi>i * (u*m/M + v*n/N))\<close>, with \<open>dir = -1\<close> for
  the forward transform and \<open>dir = 1\<close>, divided by \<open>M * N\<close>, for the inverse.
\<close>

definition dft2_sum :: "real \<Rightarrow> complex list list \<Rightarrow> nat \<Rightarrow> nat \<Rightarrow> complex" where
  "dft2_sum dir a u v =
     (\<Sum>(m, row) \<leftarrow> enumerate 0 a. \<Sum>(n, x) \<leftarrow> enumerate 0 row.
        x * cis (dir * 2 * pi *
                 (real (u * m) / real (length a) + real (v * n) / real (width a))))"

text \<open>A transform over an axis of length 0 is refused with \<open>ValueError\<close>.\<close>

definition fft2_2d :: "complex list list \<Rightarrow> py_error + complex list list" where
  "fft2_2d a =
     (if length a = 0 \<or> width a = 0 then Inl ValueError
      else Inr (map (\<lambda>u. map (\<lambda>v. dft2_sum (- 1) a u v) [0..<width a]) [0..<length a]))"

definition ifft2_2d :: "complex list list \<Rightarrow> py_error + complex list list" where
  "ifft2_2d a =
     (if length a = 0 \<or> width a = 0 then Inl ValueError
      else Inr (map (\<lambda>u. map (\<lambda>v. dft2_sum 1 a u v / of_nat (length a * width a))
                  [0..<width a]) [0..<length a]))"

fun collect :: "('e + 'a) list \<Rightarrow> 'e + 'a list" where
  "collect [] = Inr []"
| "collect (Inl e # rs) = Inl e"
| "collect (Inr x # rs) = map_sum id ((#) x) (collect rs)"

text \<open>
  \<open>np.fft.fft2\<close> and \<open>np.fft.ifft2\<close> transform the last two axes; an array of one
  dimension has no such axes and the call raises.
\<close>

fun np_fft2 :: "complex ndarray \<Rightarrow> py_error + complex ndarray" where
  "np_fft2 (Nd1 xs) = Inl IndexError"
| "np_fft2 (Nd2 a) = map_sum id Nd2 (fft2_2d a)"
| "np_fft2 (Nd3 as) = map_sum id Nd3 (collect (map fft2_2d as))"

fun np_ifft2 :: "complex ndarray \<Rightarrow> py_error + complex ndarray" where
  "np_ifft2 (Nd1 xs) = Inl IndexError"
| "np_ifft2 (Nd2 a) = map_sum id Nd2 (ifft2_2d a)"
| "np_ifft2 (Nd3 as) = map_sum id Nd3 (collect (map ifft2_2d as))"

text \<open>\<open>np.fft.fftshift\<close>: every axis of length \<open>n\<close> is rolled by \<open>n // 2\<close>.\<close>

definition shift :: "'a list \<Rightarrow> 'a list" where
  "shift xs = (let k = length xs - length xs div 2 in drop k xs @ take k xs)"

fun np_fftshift :: "'a ndarray \<Rightarrow> 'a ndarray" where
  "np_fftshift (Nd1 xs) = Nd1 (shift xs)"
| "np_fftshift (Nd2 a) = Nd2 (shift (map shift a))"
| "np_fftshift (Nd3 a) = Nd3 (shift (map shift (map (map shift) a)))"

text \<open>
  The conversion of a floating-point value to \<open>uint8\<close> (\<open>astype(np.uint8)\<close>, \<open>np.uint8\<close>)
  is a C cast: the value is truncated towards zero when the truncated value fits in 8
  bits. For the other values C leaves the result open; what the platform does there is
  the parameter \<open>oob\<close>.
\<close>

definition np_uint8 :: "(real \<Rightarrow> u8) \<Rightarrow> real \<Rightarrow> u8" where
  "np_uint8 oob r =
     (if - 1 < r \<and> r < 256 then (if r < 0 then 0 else word_of_int \<lfloor>r\<rfloor>) else oob r)"

definition of_u8 :: "u8 \<Rightarrow> complex" where
  "of_u8 s = of_nat (unat s)"

subsection \<open>The magnitude image in the specification's words\<close>

text \<open>
  The specification describes the magnitude image as \<open>20 * log10 (magnitude + 1)\<close> of the
  shifted spectrum, clipped to the range of 8-bit unsigned values.
\<close>

definition clip_u8 :: "real \<Rightarrow> u8" where
  "clip_u8 r = (if r < 0 then 0 else if 255 < r then 255 else word_of_int \<lfloor>r\<rfloor>)"

definition magnitude_spec :: "complex ndarray \<Rightarrow> u8 ndarray" where
  "magnitude_spec F = map_samples (\<lambda>z. clip_u8 (20 * log 10 (cmod z + 1))) (np_fftshift F)"

section \<open>Files and the environment\<close>

text \<open>
  A file is described by what the loaders make of it: an image file by the array and
  mode that PIL decodes and the single-channel array that OpenCV decodes with
  \<open>IMREAD_GRAYSCALE\<close>; an array file by the array that \<open>np.save\<close> stored in it. Image
  files are those with 8-bit samples.
\<close>

datatype stored_file =
    ImageFile "u8 ndarray" string "u8 list list"
  | NpyFile "complex ndarray"
  | OtherFile

type_synonym disk = "string \<Rightarrow> stored_file option"

text \<open>
  What lies outside the program is a parameter: the out-of-range conversion to \<open>uint8\<close>,
  the image encoders (the file they produce, or \<open>None\<close> when they fail), and the paths
  that can be opened for writing.
\<close>

record env =
  cast_oob :: "real \<Rightarrow> u8"
  cv2_imwrite :: "string \<Rightarrow> u8 ndarray \<Rightarrow> stored_file option"
  pil_save :: "string \<Rightarrow> u8 ndarray \<Rightarrow> string option \<Rightarrow> stored_file option"
  can_write :: "string \<Rightarrow> bool"

text \<open>\<open>cv2.imread\<close> returns \<open>None\<close>, without raising, for a file it cannot read.\<close>

definition cv2_imread_gray :: "disk \<Rightarrow> string \<Rightarrow> u8 ndarray option" where
  "cv2_imread_gray d path =
     (case d path of Some (ImageFile a m g) \<Rightarrow> Some (Nd2 g) | _ \<Rightarrow> None)"

definition pil_open :: "disk \<Rightarrow> string \<Rightarrow> py_error + u8 ndarray \<times> string" where
  "pil_open d path =
     (case d path of Some (ImageFile a m g) \<Rightarrow> Inr (a, m) | _ \<Rightarrow> Inl OSError)"

definition load_image :: "disk \<Rightarrow> string \<Rightarrow> bool \<Rightarrow> u8 ndarray option \<times> string option" where
  "load_image d path as_gray =
     (if as_gray then (cv2_imread_gray d path, Some ''L'')
      else (case pil_open d path of
              Inr (img, mode) \<Rightarrow> (Some img, Some mode)
            | Inl e \<Rightarrow> (None, None)))"

definition save_image :: "env \<Rightarrow> u8 ndarray \<Rightarrow> string option \<Rightarrow> string \<Rightarrow> disk \<Rightarrow> disk" where
  "save_image env array mode path d =
     (case (if mode = Some ''L'' then cv2_imwrite env path array
            else pil_save env path array mode) of
        Some f \<Rightarrow> d(path := Some f)
      | None \<Rightarrow> d)"

text \<open>\<open>np.save\<close> appends \<open>.npy\<close> to a file name that does not end with it.\<close>

definition npy_name :: "string \<Rightarrow> string" where
  "npy_name file =
     (if 4 \<le> length file \<and> drop (length file - 4) file = ''.npy'' then file
      else file @ ''.npy'')"

definition np_save :: "env \<Rightarrow> disk \<Rightarrow> string \<Rightarrow> complex ndarray \<Rightarrow> py_error + disk" where
  "np_save env d file arr =
     (if can_write env (npy_name file) then Inr (d(npy_name file := Some (NpyFile arr)))
      else Inl OSError)"

definition np_load :: "disk \<Rightarrow> string \<Rightarrow> py_error + complex ndarray" where
  "np_load d file =
     (case d file of
        None \<Rightarrow> Inl OSError
      | Some (NpyFile arr) \<Rightarrow> Inr arr
      | Some _ \<Rightarrow> Inl ValueError)"

definition encrypt_fourier ::
  "env \<Rightarrow> u8 ndarray \<Rightarrow> string \<Rightarrow> disk \<Rightarrow> (py_error + u8 ndarray) \<times> disk" where
  "encrypt_fourier env img_array spectrum_file d =
     (case np_fft2 (map_samples of_u8 img_array) of
        Inl e \<Rightarrow> (Inl e, d)
      | Inr f \<Rightarrow>
          (case np_save env d spectrum_file f of
             Inl e \<Rightarrow> (Inl e, d)
           | Inr d' \<Rightarrow>
               (Inr (map_samples (np_uint8 (cast_oob env))
                       (map_samples (\<lambda>z. 20 * ln (cmod z + 1)) (np_fftshift f))),
                d')))"

definition decrypt_fourier :: "env \<Rightarrow> disk \<Rightarrow> string \<Rightarrow> u8 ndarray option" where
  "decrypt_fourier env d spectrum_file =
     (case np_load d spectrum_file of
        Inl e \<Rightarrow> None
      | Inr f \<Rightarrow>
          (case np_ifft2 f of
             Inl e \<Rightarrow> None
           | Inr img_back \<Rightarrow>
               Some (map_samples (np_uint8 (cast_oob env)) (map_samples cmod img_back))))"

section \<open>Laplacian\<close>

text \<open>
  \<open>cv2.Laplacian\<close> with its default aperture adds the four neighbours of a pixel and
  subtracts four times the pixel; beyond the border the image is continued by reflection
  without repeating the border pixel. It is given for single-channel images, the arrays
  that a grayscale load returns. With 8-bit input every value is an integer that double
  precision represents exactly.
\<close>

definition border101 :: "nat \<Rightarrow> int \<Rightarrow> nat" where
  "border101 n i =
     (if n = 1 then 0
      else if i < 0 then nat (- i)
      else if int n \<le> i then nat (2 * int n - 2 - i)
      else nat i)"

definition sample_at :: "u8 list list \<Rightarrow> int \<Rightarrow> int \<Rightarrow> int" where
  "sample_at img i j =
     (let r = border101 (length img) i; c = border101 (width img) j
      in if r < length img \<and> c < length (img ! r) then uint (img ! r ! c) else 0)"

definition laplace_at :: "u8 list list \<Rightarrow> nat \<Rightarrow> nat \<Rightarrow> int" where
  "laplace_at img i j =
     sample_at img (int i - 1) (int j) + sample_at img (int i + 1) (int j)
     + sample_at img (int i) (int j - 1) + sample_at img (int i) (int j + 1)
     - 4 * sample_at img (int i) (int j)"

fun cv2_Laplacian :: "u8 ndarray \<Rightarrow> int ndarray" where
  "cv2_Laplacian (Nd2 img) =
     Nd2 (map (\<lambda>i. map (\<lambda>j. laplace_at img i j) [0..<width img]) [0..<length img])"

definition apply_laplacian :: "env \<Rightarrow> u8 ndarray \<Rightarrow> u8 ndarray" where
  "apply_laplacian env img_array =
     map_samples (np_uint8 (cast_oob env))
       (map_samples (\<lambda>v. real_of_int \<bar>v\<bar>) (cv2_Laplacian img_array))"

section \<open>Input validation\<close>

text \<open>
  The console is the list of the lines still to be typed; \<open>input\<close> takes the first one and
  raises \<open>EOFError\<close> when none is left. Lines are ASCII text. \<open>strip\<close> and \<open>lower\<close> are
  the string methods; \<open>str.strip\<close> removes the characters 9 to 13, 28 to 31 and 32.
  Messages printed to the console are left out.
\<close>

definition is_space :: "char \<Rightarrow> bool" where
  "is_space c = ((of_char c :: nat) \<in> {9, 10, 11, 12, 13, 28, 29, 30, 31, 32})"

definition strip :: "string \<Rightarrow> string" where
  "strip s = rev (dropWhile is_space (rev (dropWhile is_space s)))"

definition lower :: "string \<Rightarrow> string" where
  "lower s =
     map (\<lambda>c. case map_of (zip ''ABCDEFGHIJKLMNOPQRSTUVWXYZ'' ''abcdefghijklmnopqrstuvwxyz'') c of
              Some l \<Rightarrow> l
            | None \<Rightarrow> c) s"

text \<open>
  \<open>py_int\<close> is \<open>int\<close> on a string (\<open>None\<close> for \<open>ValueError\<close>): surrounding
  whitespace, an optional sign, then decimal digits, where single underscores may
  separate digits. On an ASCII string \<open>int\<close> skips the whitespace of C only, the characters
  9 to 13 and 32: the separators 28 to 31, which \<open>str.strip\<close> removes, make it raise.
  A string of more than 4300 digits is refused (the default limit since Python 3.11).
\<close>

definition is_int_space :: "char \<Rightarrow> bool" where
  "is_int_space c = ((of_char c :: nat) \<in> {9, 10, 11, 12, 13, 32})"

definition is_digit :: "char \<Rightarrow> bool" where
  "is_digit c = ((48::nat) \<le> of_char c \<and> (of_char c :: nat) \<le> 57)"

fun parse_digits :: "nat \<Rightarrow> string \<Rightarrow> nat option" where
  "parse_digits acc [] = Some acc"
| "parse_digits acc (c # cs) =
     (if is_digit c then parse_digits (10 * acc + (of_char c - 48)) cs
      else if c = CHR ''_'' \<and> cs \<noteq> [] \<and> is_digit (hd cs) then parse_digits acc cs
      else None)"

definition py_int :: "string \<Rightarrow> int option" where
  "py_int s =
     (let t = rev (dropWhile is_int_space (rev (dropWhile is_int_space s)));
          neg = (t \<noteq> [] \<and> hd t = CHR ''-'');
          body = (if t \<noteq> [] \<and> (hd t = CHR ''-'' \<or> hd t = CHR ''+'') then tl t else t)
      in if body \<noteq> [] \<and> is_digit (hd body) \<and> length (filter is_digit body) \<le> 4300
         then map_option (\<lambda>n. if neg then - int n else int n) (parse_digits 0 body)
         else None)"

fun get_int_input :: "int \<Rightarrow> int \<Rightarrow> string list \<Rightarrow> (py_error + int) \<times> string list" where
  "get_int_input min_val max_val [] = (Inl EOFError, [])"
| "get_int_input min_val max_val (line # rest) =
     (case py_int line of
        Some val \<Rightarrow>
          if min_val \<le> val \<and> val \<le> max_val then (Inr val, rest)
          else get_int_input min_val max_val rest
      | None \<Rightarrow> get_int_input min_val max_val rest)"

section \<open>Main interface\<close>

record world =
  stdin :: "string list"
  disk :: disk

definition input :: "world \<Rightarrow> (py_error + string) \<times> world" where
  "input w =
     (case stdin w of
        [] \<Rightarrow> (Inl EOFError, w)
      | line # rest \<Rightarrow> (Inr line, w\<lparr>stdin := rest\<rparr>))"

text \<open>
  A run ends with the exception that escaped, if any, and the world it leaves.
  \<open>and_then\<close> continues after a step that returned a value and stops at one that raised.
\<close>

definition and_then ::
  "(py_error + 'a) \<times> world \<Rightarrow> ('a \<Rightarrow> world \<Rightarrow> py_error option \<times> world)
     \<Rightarrow> py_error option \<times> world" where
  "and_then step cont =
     (case step of (Inl e, w) \<Rightarrow> (Some e, w) | (Inr x, w) \<Rightarrow> cont x w)"

text \<open>The call \<open>get_int_input(prompt)\<close> of \<open>main\<close>, with the default bounds 0 and 255.\<close>

definition read_key :: "world \<Rightarrow> (py_error + int) \<times> world" where
  "read_key w = (case get_int_input 0 255 (stdin w) of (r, rest) \<Rightarrow> (r, w\<lparr>stdin := rest\<rparr>))"

definition main :: "env \<Rightarrow> world \<Rightarrow> py_error option \<times> world" where
  "main env w0 =
     and_then (input w0) (\<lambda>choice w.
       if strip choice = ''1'' then
         and_then (input w) (\<lambda>operation w.
         and_then (input w) (\<lambda>path w.
         and_then (read_key w) (\<lambda>key w.
         and_then (input w) (\<lambda>output w.
           case load_image (disk w) (strip path) False of
             (None, mode) \<Rightarrow> (None, w)
           | (Some img_array, mode) \<Rightarrow>
               (case (if lower (strip operation) = ''e'' then encrypt_pixels img_array key
                      else decrypt_pixels img_array key) of
                  Inl e \<Rightarrow> (Some e, w)
                | Inr result \<Rightarrow>
                    (None, w\<lparr>disk := save_image env result mode (strip output) (disk w)\<rparr>))))))
       else if strip choice = ''2'' then
         and_then (input w) (\<lambda>operation w.
           if lower (strip operation) = ''e'' then
             and_then (input w) (\<lambda>path w.
             and_then (input w) (\<lambda>spectrum_file w.
             and_then (input w) (\<lambda>output w.
               case load_image (disk w) (strip path) True of
                 (None, mode) \<Rightarrow> (None, w)
               | (Some img_array, mode) \<Rightarrow>
                   (case encrypt_fourier env img_array (strip spectrum_file) (disk w) of
                      (Inl e, d) \<Rightarrow> (Some e, w\<lparr>disk := d\<rparr>)
                    | (Inr result, d) \<Rightarrow>
                        (None, w\<lparr>disk := save_image env result (Some ''L'') (strip output) d\<rparr>)))))
           else if lower (strip operation) = ''d'' then
             and_then (input w) (\<lambda>spectrum_file w.
             and_then (input w) (\<lambda>output w.
               case decrypt_fourier env (disk w) (strip spectrum_file) of
                 None \<Rightarrow> (None, w)
               | Some result \<Rightarrow>
                   (None, w\<lparr>disk := save_image env result (Some ''L'') (strip output) (disk w)\<rparr>)))
           else (None, w))
       else if strip choice = ''3'' then
         and_then (input w) (\<lambda>path w.
         and_then (input w) (\<lambda>output w.
           case load_image (disk w) (strip path) True of
             (None, mode) \<Rightarrow> (None, w)
           | (Some img_array, mode) \<Rightarrow>
               (None, w\<lparr>disk := save_image env (apply_laplacian env img_array) (Some ''L'')
                                 (strip output) (disk w)\<rparr>)))
       else (None, w))"

section \<open>Shapes\<close>

text \<open>
  The shape of an array is the list of the lengths of its axes: height and width for an
  image, and the number of channels after them. NumPy arrays are rectangular; \<open>rect\<close>
  says so of the nested rows. \<open>samples\<close> lists the values of an array.
\<close>

fun shape :: "'a ndarray \<Rightarrow> nat list" where
  "shape (Nd1 xs) = [length xs]"
| "shape (Nd2 a) = [length a, width a]"
| "shape (Nd3 a) = [length a, width a, width (concat a)]"

fun rect :: "'a ndarray \<Rightarrow> bool" where
  "rect (Nd1 xs) = True"
| "rect (Nd2 a) = (\<forall>r\<in>set a. length r = width a)"
| "rect (Nd3 a) =
     ((\<forall>p\<in>set a. length p = width a) \<and> (\<forall>r\<in>set (concat a). length r = width (concat a)))"

fun samples :: "'a ndarray \<Rightarrow> 'a list" where
  "samples (Nd1 xs) = xs"
| "samples (Nd2 a) = concat a"
| "samples (Nd3 a) = concat (concat a)"

section \<open>An environment and disks for concrete runs\<close>

text \<open>
  An environment in which the out-of-range conversion wraps around, both encoders store
  single-channel images as they are and fail on other arrays, and every path can be
  written.
\<close>

fun single_channel :: "u8 ndarray \<Rightarrow> u8 list list option" where
  "single_channel (Nd1 xs) = None"
| "single_channel (Nd2 g) = Some g"
| "single_channel (Nd3 g) =
     (if \<forall>row\<in>set g. \<forall>px\<in>set row. length px = 1 then Some (map (map hd) g) else None)"

definition env0 :: env where
  "env0 =
     \<lparr>cast_oob = (\<lambda>r. word_of_int \<lfloor>r\<rfloor>),
      cv2_imwrite = (\<lambda>path a. map_option (\<lambda>g. ImageFile (Nd2 g) ''L'' g) (single_channel a)),
      pil_save = (\<lambda>path a mode.
        case mode of
          Some m \<Rightarrow> map_option (\<lambda>g. ImageFile (Nd2 g) m g) (single_channel a)
        | None \<Rightarrow> None),
      can_write = (\<lambda>path. True)\<rparr>"

text \<open>A disk with one array file, holding an array of three dimensions.\<close>

definition d1 :: disk where
  "d1 = (\<lambda>path. None)(''s.npy'' := Some (NpyFile (Nd3 [[[1]]])))"

text \<open>A disk with a text file and no image.\<close>

definition d2 :: disk where
  "d2 = (\<lambda>path. None)(''notes.txt'' := Some OtherFile)"

text \<open>A disk with one array file, holding a 2-D spectrum.\<close>

definition d3 :: disk where
  "d3 = (\<lambda>path. None)(''f.npy'' := Some (NpyFile (Nd2 [[4]])))"

text \<open>The specification's condition on a spectrum file: it holds a 2-D array.\<close>

definition holds_2d_array :: "disk \<Rightarrow> string \<Rightarrow> bool" where
  "holds_2d_array d path = (case d path of Some (NpyFile (Nd2 a)) \<Rightarrow> True | _ \<Rightarrow> False)"

section \<open>Properties of the pixel codec\<close>

lemma np_flipud_involution: "np_flipud (np_flipud a) = a"
  by (cases a) simp_all

lemma xor_key_twice: "map_samples (\<lambda>s. s XOR k) (map_samples (\<lambda>s. s XOR k) a) = a"
  for k :: u8
proof -
  have "(\<lambda>s. s XOR k) \<circ> (\<lambda>s. s XOR k) = id"
    by (rule ext) (simp add: xor.assoc)
  then show ?thesis
    by (cases a) (simp_all add: comp_def[symmetric] del: comp_apply)
qed

lemma flipud_map_samples: "np_flipud (map_samples f a) = map_samples f (np_flipud a)"
  by (cases a) (simp_all add: rev_map)

text \<open>
  C1. Decrypting an encrypted image with the same key in \<open>[0,255]\<close> gives the image
  back exactly: the encryption returns an array, and the decryption of that array
  returns the original one.
\<close>

theorem pixel_round_trip:
  assumes "0 \<le> k" and "k \<le> 255"
  shows "\<exists>y. encrypt_pixels x k = Inr y \<and> decrypt_pixels y k = Inr x"
  using assms
  by (simp add: encrypt_pixels_def decrypt_pixels_def np_xor_def
      flipud_map_samples xor_key_twice np_flipud_involution)

theorem pixel_round_trip_witness:
  "(0::int) \<le> 5 \<and> (5::int) \<le> 255 \<and>
   (\<exists>y. encrypt_pixels (Nd2 [[10, 20], [30, 40]]) 5 = Inr y
      \<and> decrypt_pixels y 5 = Inr (Nd2 [[10, 20], [30, 40]]))"
  using pixel_round_trip [of 5 "Nd2 [[10, 20], [30, 40]]"] by simp

lemma xor_samples_flip_commute:
  "np_xor (np_flipud a) k = map_sum id np_flipud (np_xor a k)"
  by (simp add: np_xor_def flipud_map_samples)

lemma reverse_rows_rev: "reverse_rows rows = rev rows"
  by (rule nth_equalityI) (simp_all add: reverse_rows_def rev_nth)

lemma flip_vertical_spec_flipud: "flip_vertical_spec a = np_flipud a"
  by (cases a) (simp_all add: reverse_rows_rev)

lemma xor_bits_XOR: "xor_bits s k = s XOR k"
  by (rule bit_word_eqI)
    (simp add: xor_bits_def bit_horner_sum_bit_word_iff bit_xor_iff)

lemma xor_key_spec_np_xor:
  "0 \<le> k \<Longrightarrow> k \<le> 255 \<Longrightarrow> np_xor a k = Inr (xor_key_spec a k)"
  by (simp add: np_xor_def xor_key_spec_def xor_bits_XOR)

text \<open>
  C2. For a key in \<open>[0,255]\<close>, \<open>encrypt_pixels\<close> returns the vertical flip of the image
  XORed sample by sample with the key, and \<open>decrypt_pixels\<close> returns the vertical flip of
  the image XORed with the key. The image \<open>[[10,20],[30,40]]\<close> with key 5 encrypts to
  \<open>[[27,45],[15,17]]\<close>, which decrypts to \<open>[[10,20],[30,40]]\<close>.
\<close>

theorem pixel_codec_contract:
  assumes "0 \<le> k" and "k \<le> 255"
  shows "encrypt_pixels x k = Inr (xor_key_spec (flip_vertical_spec x) k)
       \<and> decrypt_pixels y k = Inr (flip_vertical_spec (xor_key_spec y k))
       \<and> encrypt_pixels (Nd2 [[10, 20], [30, 40]]) 5 = Inr (Nd2 [[27, 45], [15, 17]])
       \<and> decrypt_pixels (Nd2 [[27, 45], [15, 17]]) 5 = Inr (Nd2 [[10, 20], [30, 40]])"
proof -
  have "encrypt_pixels x k = Inr (xor_key_spec (flip_vertical_spec x) k)"
    using assms by (simp add: encrypt_pixels_def flip_vertical_spec_flipud xor_key_spec_np_xor)
  moreover have "decrypt_pixels y k = Inr (flip_vertical_spec (xor_key_spec y k))"
    using assms by (simp add: decrypt_pixels_def flip_vertical_spec_flipud xor_key_spec_np_xor)
  moreover have "encrypt_pixels (Nd2 [[10, 20], [30, 40]]) 5 = Inr (Nd2 [[27, 45], [15, 17]])"
    by (simp add: encrypt_pixels_def np_xor_def)
  moreover have "decrypt_pixels (Nd2 [[27, 45], [15, 17]]) 5 = Inr (Nd2 [[10, 20], [30, 40]])"
    by (simp add: decrypt_pixels_def np_xor_def)
  ultimately show ?thesis by simp
qed

theorem pixel_codec_contract_witness:
  "(0::int) \<le> 255 \<and> (255::int) \<le> 255
   \<and> encrypt_pixels (Nd3 [[[1, 2, 3]], [[4, 5, 6]]]) 255
       = Inr (Nd3 [[[251, 250, 249]], [[254, 253, 252]]])
   \<and> decrypt_pixels (Nd2 [[0], [255]]) 255 = Inr (Nd2 [[0], [255]])"
  using pixel_codec_contract [of 255 "Nd3 [[[1, 2, 3]], [[4, 5, 6]]]" "Nd2 [[0], [255]]"]
  by (simp add: xor_key_spec_def xor_bits_def reverse_rows_def upt_rec)

text \<open>
  C3 as claimed: some image and key in \<open>[0,255]\<close> make flip-then-XOR differ from
  XOR-then-flip. No such image and key exist: on every input the two functions return
  the same result.
\<close>

theorem no_order_dependence:
  "\<not> (\<exists>x k. 0 \<le> k \<and> k \<le> 255 \<and> encrypt_pixels x k \<noteq> decrypt_pixels x k)"
  by (simp add: encrypt_pixels_def decrypt_pixels_def xor_samples_flip_commute)

text \<open>
  C3 as amended: for every image and every key in \<open>[0,255]\<close>, flip-then-XOR equals
  XOR-then-flip, so \<open>encrypt_pixels\<close> and \<open>decrypt_pixels\<close> are the same function, and the
  round trip also holds with the same order on both sides (encrypting twice, or
  decrypting twice, returns the image).
\<close>

theorem pixel_orders_agree:
  assumes "0 \<le> k" and "k \<le> 255"
  shows "encrypt_pixels x k = decrypt_pixels x k
       \<and> (\<exists>y. encrypt_pixels x k = Inr y \<and> encrypt_pixels y k = Inr x)
       \<and> (\<exists>y. decrypt_pixels x k = Inr y \<and> decrypt_pixels y k = Inr x)"
  using assms
  by (simp add: encrypt_pixels_def decrypt_pixels_def np_xor_def
      flipud_map_samples xor_key_twice np_flipud_involution)

theorem pixel_orders_agree_witness:
  "(0::int) \<le> 5 \<and> (5::int) \<le> 255
   \<and> encrypt_pixels (Nd2 [[10, 20], [30, 40]]) 5 = decrypt_pixels (Nd2 [[10, 20], [30, 40]]) 5
   \<and> (\<exists>y. encrypt_pixels (Nd2 [[10, 20], [30, 40]]) 5 = Inr y
          \<and> encrypt_pixels y 5 = Inr (Nd2 [[10, 20], [30, 40]]))
   \<and> (\<exists>y. decrypt_pixels (Nd2 [[10, 20], [30, 40]]) 5 = Inr y
          \<and> decrypt_pixels y 5 = Inr (Nd2 [[10, 20], [30, 40]]))"
proof -
  have lo: "(0::int) \<le> 5" and hi: "(5::int) \<le> 255" by simp_all
  from pixel_orders_agree [OF lo hi, of "Nd2 [[10, 20], [30, 40]]"] lo hi
  show ?thesis by blast
qed

lemma array_value_flipud_st: "array_value h (np_flipud_st a) = np_flipud (array_value h a)"
  by (simp add: array_value_def np_flipud_st_def np_flipud_involution)

lemma np_xor_st_frame:
  assumes "np_xor_st h a k = (r, h')"
  shows "\<forall>b<next_free h. mem h' b = mem h b"
    and "map_sum id (array_value h') r = np_xor (array_value h a) k"
    and "\<forall>y. r = Inr y \<longrightarrow> buffer y = next_free h \<and> \<not> flipped y \<and> next_free h' = Suc (next_free h)"
    and "\<forall>e. r = Inl e \<longrightarrow> h' = h"
  using assms
  by (auto simp: np_xor_st_def array_value_def split: sum.splits)

text \<open>
  C8. Neither function changes its input: after \<open>encrypt_pixels\<close> or \<open>decrypt_pixels\<close>
  on an array object \<open>x\<close> of the store, every buffer allocated before the call holds
  what it held, so \<open>x\<close> still has its value; the array returned lives in a buffer
  allocated by the call, different from the buffer of \<open>x\<close>, and its value is the
  result computed from the value of \<open>x\<close>. This holds for every key (a key that NumPy
  refuses changes nothing either).
\<close>

theorem pixel_no_mutation:
  assumes "buffer x < next_free h"
    and "encrypt_pixels_st h x k = (re, se)"
    and "decrypt_pixels_st h x k = (rd, sd)"
  shows "array_value se x = array_value h x \<and> array_value sd x = array_value h x
       \<and> (\<forall>b<next_free h. mem se b = mem h b \<and> mem sd b = mem h b)
       \<and> (\<forall>y. re = Inr y \<or> rd = Inr y \<longrightarrow> buffer y \<noteq> buffer x \<and> next_free h \<le> buffer y)
       \<and> map_sum id (array_value se) re = encrypt_pixels (array_value h x) k
       \<and> map_sum id (array_value sd) rd = decrypt_pixels (array_value h x) k"
proof -
  from assms(2) have e: "np_xor_st h (np_flipud_st x) k = (re, se)"
    by (simp add: encrypt_pixels_def encrypt_pixels_st_def)
  from assms(3) obtain r where d: "np_xor_st h x k = (r, sd)" and rd: "rd = map_sum id np_flipud_st r"
    by (auto simp: decrypt_pixels_st_def split: prod.splits)
  note fe = np_xor_st_frame [OF e] and fd = np_xor_st_frame [OF d]
  have 1: "\<forall>b<next_free h. mem se b = mem h b \<and> mem sd b = mem h b"
    using fe(1) fd(1) by simp
  with assms(1) have 2: "array_value se x = array_value h x \<and> array_value sd x = array_value h x"
    by (simp add: array_value_def)
  have 3: "\<forall>y. re = Inr y \<or> rd = Inr y \<longrightarrow> buffer y \<noteq> buffer x \<and> next_free h \<le> buffer y"
    using fe(3) fd(3) assms(1) rd by (cases r) (auto simp: np_flipud_st_def)
  have 4: "map_sum id (array_value se) re = encrypt_pixels (array_value h x) k"
    using fe(2) by (simp add: encrypt_pixels_def array_value_flipud_st)
  have 5: "map_sum id (array_value sd) rd = decrypt_pixels (array_value h x) k"
    using fd(2) [symmetric] rd
    by (cases r) (simp_all add: decrypt_pixels_def array_value_flipud_st)
  from 1 2 3 4 5 show ?thesis by blast
qed

theorem pixel_no_mutation_witness:
  "buffer x0 < next_free h0
   \<and> array_value h0 x0 = Nd2 [[10, 20], [30, 40]]
   \<and> fst (encrypt_pixels_st h0 x0 5) = Inr \<lparr>buffer = 1, flipped = False\<rparr>
   \<and> fst (decrypt_pixels_st h0 x0 5) = Inr \<lparr>buffer = 1, flipped = True\<rparr>
   \<and> array_value (snd (encrypt_pixels_st h0 x0 5)) x0 = Nd2 [[10, 20], [30, 40]]
   \<and> array_value (snd (decrypt_pixels_st h0 x0 5)) x0 = Nd2 [[10, 20], [30, 40]]
   \<and> array_value (snd (encrypt_pixels_st h0 x0 5)) \<lparr>buffer = 1, flipped = False\<rparr>
        = Nd2 [[27, 45], [15, 17]]"
proof -
  have a: "buffer x0 < next_free h0" by (simp add: x0_def h0_def)
  have v: "array_value h0 x0 = Nd2 [[10, 20], [30, 40]]"
    by (simp add: array_value_def x0_def h0_def)
  have e: "encrypt_pixels_st h0 x0 5
      = (fst (encrypt_pixels_st h0 x0 5), snd (encrypt_pixels_st h0 x0 5))"
    and d: "decrypt_pixels_st h0 x0 5
      = (fst (decrypt_pixels_st h0 x0 5), snd (decrypt_pixels_st h0 x0 5))" by simp_all
  have fe: "fst (encrypt_pixels_st h0 x0 5) = Inr \<lparr>buffer = 1, flipped = False\<rparr>"
    by (simp add: encrypt_pixels_st_def np_xor_st_def np_xor_def h0_def)
  have fd: "fst (decrypt_pixels_st h0 x0 5) = Inr \<lparr>buffer = 1, flipped = True\<rparr>"
    by (simp add: decrypt_pixels_st_def np_xor_st_def np_xor_def h0_def np_flipud_st_def
        split: prod.splits)
  from pixel_no_mutation [OF a e d] a v fe fd show ?thesis
    by (simp add: encrypt_pixels_def np_xor_def)
qed

section \<open>Properties of the input validation\<close>

lemma get_int_input_returns:
  "get_int_input lo hi lines = (Inr v, rest) \<Longrightarrow>
     lo \<le> v \<and> v \<le> hi \<and>
     (\<exists>pre l. lines = pre @ l # rest \<and> py_int l = Some v
        \<and> (\<forall>p\<in>set pre. \<forall>u. py_int p = Some u \<longrightarrow> u < lo \<or> hi < u))"
proof (induction lines)
  case Nil
  then show ?case by simp
next
  case (Cons a lines)
  show ?case
  proof (cases "\<exists>u. py_int a = Some u \<and> lo \<le> u \<and> u \<le> hi")
    case True
    with Cons.prems have "py_int a = Some v" "rest = lines" "lo \<le> v" "v \<le> hi"
      by auto
    then have "a # lines = [] @ a # rest \<and> py_int a = Some v
        \<and> (\<forall>p\<in>set []. \<forall>u. py_int p = Some u \<longrightarrow> u < lo \<or> hi < u)" by simp
    with \<open>lo \<le> v\<close> \<open>v \<le> hi\<close> show ?thesis by blast
  next
    case False
    then have rej: "\<forall>u. py_int a = Some u \<longrightarrow> u < lo \<or> hi < u"
      by (meson not_le_imp_less)
    from False Cons.prems have "get_int_input lo hi lines = (Inr v, rest)"
      by (auto split: option.splits if_splits)
    from Cons.IH [OF this] obtain pre l where
      r: "lo \<le> v" "v \<le> hi" "lines = pre @ l # rest" "py_int l = Some v"
        "\<forall>p\<in>set pre. \<forall>u. py_int p = Some u \<longrightarrow> u < lo \<or> hi < u" by blast
    from r(3) have "a # lines = (a # pre) @ l # rest" by simp
    moreover from r(5) rej
    have "\<forall>p\<in>set (a # pre). \<forall>u. py_int p = Some u \<longrightarrow> u < lo \<or> hi < u" by simp
    ultimately show ?thesis using r(1,2,4) by blast
  qed
qed

lemma get_int_input_rejects:
  "\<forall>u. py_int l = Some u \<longrightarrow> u < lo \<or> hi < u \<Longrightarrow>
     get_int_input lo hi (l # lines) = get_int_input lo hi lines"
  by (auto split: option.splits)

lemma get_int_input_accepts:
  "py_int l = Some v \<Longrightarrow> lo \<le> v \<Longrightarrow> v \<le> hi \<Longrightarrow>
     get_int_input lo hi (l # lines) = (Inr v, lines)"
  by simp

lemma get_int_input_first_valid:
  assumes "\<forall>p\<in>set pre. \<forall>u. py_int p = Some u \<longrightarrow> u < lo \<or> hi < u"
    and "py_int l = Some v" and "lo \<le> v" and "v \<le> hi"
  shows "get_int_input lo hi (pre @ l # rest) = (Inr v, rest)"
  using assms
proof (induction pre)
  case Nil
  then show ?case by simp
next
  case (Cons a pre)
  then have "get_int_input lo hi (a # pre @ l # rest) = get_int_input lo hi (pre @ l # rest)"
    by (intro get_int_input_rejects) simp
  with Cons show ?case by simp
qed

lemma py_int_separators: "py_int [CHR 0x1C, CHR ''1'', CHR ''2'', CHR 0x1F] = None"
  by (simp add: py_int_def is_int_space_def is_digit_def)

lemma get_int_input_all_rejected:
  "\<forall>p\<in>set lines. \<forall>u. py_int p = Some u \<longrightarrow> u < lo \<or> hi < u \<Longrightarrow>
     get_int_input lo hi lines = (Inl EOFError, [])"
  by (induction lines) (auto split: option.splits)

lemma get_int_input_raises:
  "get_int_input lo hi lines = (Inl e, rest) \<Longrightarrow> e = EOFError \<and> rest = []"
  by (induction lines) (auto split: option.splits if_splits)

lemma py_int_300: "py_int ''300'' = Some 300"
  by (simp add: py_int_def is_int_space_def is_digit_def)

lemma main_pixel_key:
  assumes "strip c = ''1''" and "\<forall>u. py_int l = Some u \<longrightarrow> u < 0 \<or> 255 < u"
  shows "main env (w\<lparr>stdin := c # operation # path # l # lines\<rparr>)
       = main env (w\<lparr>stdin := c # operation # path # lines\<rparr>)"
  using assms
  by (simp add: main_def input_def and_then_def read_key_def get_int_input_rejects
       del: get_int_input.simps)

lemma strip_plain:
  "strip ''1'' = ''1''" "strip ''2'' = ''2''" "strip ''3'' = ''3''"
  "strip ''d'' = ''d''" "strip ''e'' = ''e''" "lower ''d'' = ''d''" "lower ''e'' = ''e''"
  "strip ''s.npy'' = ''s.npy''" "strip ''out.png'' = ''out.png''"
  "strip ''notes.txt'' = ''notes.txt''"
  by (simp_all add: strip_def is_space_def lower_def)

text \<open>
  C7. Whatever is typed (any finite list of entries, which is what a call that returns
  has read), a value returned by \<open>get_int_input\<close> is an integer in
  \<open>[min_val, max_val]\<close>: it is the first entry that reads as such an integer, and every
  entry before it (not an integer, or out of range) made the loop ask again; when no
  entry is valid, the function returns nothing and ends with the console
  (\<open>EOFError\<close>). Conversely, when an entry that reads as an integer in range follows
  entries that do not, that integer is returned and the entries after it are left on the
  console. In particular the entry \<open>300\<close> at the key prompt of the pixel method
  is skipped: the run goes on as if it had not been typed, so no transform is given it.
\<close>

theorem get_int_input_valid:
  "(\<forall>v rest. get_int_input lo hi lines = (Inr v, rest) \<longrightarrow>
      lo \<le> v \<and> v \<le> hi \<and>
      (\<exists>pre l. lines = pre @ l # rest \<and> py_int l = Some v
         \<and> (\<forall>p\<in>set pre. \<forall>u. py_int p = Some u \<longrightarrow> u < lo \<or> hi < u)))
   \<and> (\<forall>e rest. get_int_input lo hi lines = (Inl e, rest) \<longrightarrow> e = EOFError \<and> rest = [])
   \<and> ((\<forall>u. py_int l = Some u \<longrightarrow> u < lo \<or> hi < u) \<longrightarrow>
        get_int_input lo hi (l # lines) = get_int_input lo hi lines)
   \<and> ((\<forall>p\<in>set pre. \<forall>u. py_int p = Some u \<longrightarrow> u < lo \<or> hi < u)
        \<and> py_int l' = Some v' \<and> lo \<le> v' \<and> v' \<le> hi \<longrightarrow>
        get_int_input lo hi (pre @ l' # lines) = (Inr v', lines))
   \<and> py_int ''300'' = Some 300
   \<and> get_int_input 0 255 (''300'' # lines) = get_int_input 0 255 lines
   \<and> (strip c = ''1'' \<longrightarrow>
        main env (w\<lparr>stdin := c # operation # path # ''300'' # lines\<rparr>)
        = main env (w\<lparr>stdin := c # operation # path # lines\<rparr>))"
proof -
  have rej: "\<forall>u. py_int ''300'' = Some u \<longrightarrow> u < 0 \<or> 255 < u"
    by (simp add: py_int_300)
  show ?thesis
    using get_int_input_returns [of lo hi lines] get_int_input_raises [of lo hi lines]
      get_int_input_rejects [of l lo hi lines] py_int_300
      get_int_input_first_valid [of pre lo hi l' v' lines]
      get_int_input_rejects [OF rej, of lines] main_pixel_key [OF _ rej, where c = c and env = env and w = w
        and operation = operation and path = path and lines = lines]
    by blast
qed

theorem get_int_input_valid_witness:
  "get_int_input 0 255 [''300'', ''abc'', ''-1'', ''256'', '' 255 '', ''7''] = (Inr 255, [''7''])
   \<and> (0::int) \<le> 255 \<and> (255::int) \<le> 255
   \<and> get_int_input 0 255 [''300''] = (Inl EOFError, [])
   \<and> get_int_input 0 255 [[CHR 0x1C, CHR ''1'', CHR ''2'', CHR 0x1F], ''9'', ''4'']
       = (Inr 9, [''4''])
   \<and> main env0 \<lparr>stdin = [''1'', ''e'', ''notes.txt'', ''300''], disk = d2\<rparr>
       = (Some EOFError, \<lparr>stdin = [], disk = d2\<rparr>)"
proof -
  have run: "get_int_input 0 255 [''300'', ''abc'', ''-1'', ''256'', '' 255 '', ''7'']
      = (Inr 255, [''7''])"
    by (simp add: py_int_def is_int_space_def is_digit_def)
  have m: "main env0 \<lparr>stdin = [''1'', ''e'', ''notes.txt''], disk = d2\<rparr>
      = (Some EOFError, \<lparr>stdin = [], disk = d2\<rparr>)"
    by (simp add: main_def input_def and_then_def read_key_def strip_plain)
  note t = get_int_input_valid [where lo = 0 and hi = 255
      and lines = "[''300'', ''abc'', ''-1'', ''256'', '' 255 '', ''7'']"]
  note u = get_int_input_valid [where lo = 0 and hi = 255 and lines = "[]" and c = "''1''"
      and env = env0 and w = "\<lparr>stdin = [], disk = d2\<rparr>" and operation = "''e''"
      and path = "''notes.txt''"]
  have nine: "py_int ''9'' = Some 9"
    by (simp add: py_int_def is_int_space_def is_digit_def)
  have sep: "\<forall>p\<in>set [[CHR 0x1C, CHR ''1'', CHR ''2'', CHR 0x1F]].
      \<forall>u. py_int p = Some u \<longrightarrow> u < 0 \<or> 255 < u"
    by (simp add: py_int_separators)
  note f = get_int_input_valid [where lo = 0 and hi = 255
      and pre = "[[CHR 0x1C, CHR ''1'', CHR ''2'', CHR 0x1F]]" and l' = "''9''" and v' = 9
      and lines = "[''4'']"]
  from f sep nine
  have first: "get_int_input 0 255 ([[CHR 0x1C, CHR ''1'', CHR ''2'', CHR 0x1F]] @ ''9'' # [''4''])
      = (Inr 9, [''4''])"
    by simp
  from t run have "(0::int) \<le> 255 \<and> (255::int) \<le> 255" by blast
  moreover from u have "get_int_input 0 255 [''300''] = get_int_input 0 255 []" by blast
  moreover from u m have "main env0 \<lparr>stdin = [''1'', ''e'', ''notes.txt'', ''300''], disk = d2\<rparr>
      = (Some EOFError, \<lparr>stdin = [], disk = d2\<rparr>)"
    by (simp add: strip_plain)
  ultimately show ?thesis using run first by simp
qed

section \<open>Properties of loading\<close>

lemma main_gray_unreadable:
  assumes "cv2_imread_gray d (strip path) = None"
  shows "strip c = ''3'' \<Longrightarrow>
           main env \<lparr>stdin = c # path # out # rest, disk = d\<rparr>
           = (None, \<lparr>stdin = rest, disk = d\<rparr>)"
    and "strip c = ''2'' \<Longrightarrow> lower (strip operation) = ''e'' \<Longrightarrow>
           main env \<lparr>stdin = c # operation # path # sf # out # rest, disk = d\<rparr>
           = (None, \<lparr>stdin = rest, disk = d\<rparr>)"
  using assms by (simp_all add: main_def input_def and_then_def load_image_def)

lemma cv2_imread_gray_None:
  "(\<forall>a m g. d path \<noteq> Some (ImageFile a m g)) \<Longrightarrow> cv2_imread_gray d path = None"
  by (auto simp: cv2_imread_gray_def split: option.splits stored_file.splits)

text \<open>
  C10. When the file at the path is not an image that can be read (it is missing or
  something else), \<open>load_image\<close> with \<open>as_gray=True\<close> returns the pair of \<open>None\<close> and the
  mode \<open>L\<close>: the array is \<open>None\<close>, the mode is not, and nothing is raised. The callers
  in \<open>main\<close> test the array alone: the Laplacian method and the Fourier encryption return
  at once, without an exception and with the disk as it was.
\<close>

theorem load_image_gray_unreadable:
  assumes "\<forall>a m g. d path \<noteq> Some (ImageFile a m g)"
  shows "load_image d path True = (None, Some ''L'')
       \<and> (strip c = ''3'' \<and> strip p = path \<longrightarrow>
            main env \<lparr>stdin = c # p # out # rest, disk = d\<rparr>
            = (None, \<lparr>stdin = rest, disk = d\<rparr>))
       \<and> (strip c = ''2'' \<and> lower (strip operation) = ''e'' \<and> strip p = path \<longrightarrow>
            main env \<lparr>stdin = c # operation # p # sf # out # rest, disk = d\<rparr>
            = (None, \<lparr>stdin = rest, disk = d\<rparr>))"
proof -
  from assms have n: "cv2_imread_gray d path = None"
    by (rule cv2_imread_gray_None)
  then have "load_image d path True = (None, Some ''L'')"
    by (simp add: load_image_def)
  with n show ?thesis
    by (auto simp: main_gray_unreadable)
qed

theorem load_image_gray_unreadable_witness:
  "load_image d2 ''notes.txt'' True = (None, Some ''L'')
   \<and> load_image d2 ''missing.png'' True = (None, Some ''L'')
   \<and> main env0 \<lparr>stdin = [''3'', ''notes.txt'', ''out.png''], disk = d2\<rparr>
       = (None, \<lparr>stdin = [], disk = d2\<rparr>)
   \<and> main env0 \<lparr>stdin = [''2'', ''e'', ''notes.txt'', ''s.npy'', ''out.png''], disk = d2\<rparr>
       = (None, \<lparr>stdin = [], disk = d2\<rparr>)"
proof -
  have a: "\<forall>a m g. d2 ''notes.txt'' \<noteq> Some (ImageFile a m g)"
    and b: "\<forall>a m g. d2 ''missing.png'' \<noteq> Some (ImageFile a m g)"
    by (simp_all add: d2_def)
  from load_image_gray_unreadable [where d = d2 and path = "''notes.txt''" and c = "''3''"
      and p = "''notes.txt''" and env = env0 and out = "''out.png''" and rest = "[]", OF a]
    load_image_gray_unreadable [where d = d2 and path = "''notes.txt''" and c = "''2''"
      and p = "''notes.txt''" and operation = "''e''" and env = env0 and sf = "''s.npy''"
      and out = "''out.png''" and rest = "[]", OF a]
    load_image_gray_unreadable [where d = d2 and path = "''missing.png''", OF b]
  show ?thesis by (simp add: strip_plain)
qed

section \<open>Properties of the spectrum decryption\<close>

lemma dft2_sum_single: "dft2_sum dir [[z]] 0 0 = z"
  by (simp add: dft2_sum_def)

lemma decrypt_fourier_load_fails:
  assumes "d path = None \<or> d path = Some OtherFile \<or> (\<exists>a m g. d path = Some (ImageFile a m g))
           \<or> (\<exists>xs. d path = Some (NpyFile (Nd1 xs)))"
  shows "decrypt_fourier env d path = None"
  using assms by (auto simp: decrypt_fourier_def np_load_def)

lemma main_fourier_decrypt:
  assumes "strip c = ''2''" and "lower (strip operation) = ''d''"
  shows "main env \<lparr>stdin = c # operation # sf # out # rest, disk = d\<rparr>
       = (None, \<lparr>stdin = rest,
           disk = (case decrypt_fourier env d (strip sf) of
                     None \<Rightarrow> d
                   | Some result \<Rightarrow> save_image env result (Some ''L'') (strip out) d)\<rparr>)"
  using assms
  by (simp add: main_def input_def and_then_def split: option.splits)

text \<open>
  C5 as claimed: a spectrum file that does not hold a 2-D array makes
  \<open>decrypt_fourier\<close> return \<open>None\<close>, and no output is written. The array file of the disk
  \<open>d1\<close> holds an array of shape \<open>1 \<times> 1 \<times> 1\<close>: \<open>decrypt_fourier\<close> returns an array, and
  \<open>main\<close> writes the output file.
\<close>

theorem decrypt_fourier_accepts_3d:
  "\<not> holds_2d_array d1 ''s.npy''
   \<and> decrypt_fourier env0 d1 ''s.npy'' = Some (Nd3 [[[1]]])
   \<and> main env0 \<lparr>stdin = [''2'', ''d'', ''s.npy'', ''out.png''], disk = d1\<rparr>
       = (None, \<lparr>stdin = [], disk = d1(''out.png'' := Some (ImageFile (Nd2 [[1]]) ''L'' [[1]]))\<rparr>)"
proof -
  have r: "decrypt_fourier env0 d1 ''s.npy'' = Some (Nd3 [[[1]]])"
    by (simp add: decrypt_fourier_def np_load_def d1_def ifft2_2d_def width_def
        dft2_sum_single np_uint8_def)
  have "\<not> holds_2d_array d1 ''s.npy''"
    by (simp add: holds_2d_array_def d1_def)
  moreover have "main env0 \<lparr>stdin = [''2'', ''d'', ''s.npy'', ''out.png''], disk = d1\<rparr>
       = (None, \<lparr>stdin = [], disk = save_image env0 (Nd3 [[[1]]]) (Some ''L'') ''out.png'' d1\<rparr>)"
    by (simp add: main_fourier_decrypt strip_plain r)
  moreover have "save_image env0 (Nd3 [[[1]]]) (Some ''L'') ''out.png'' d1
       = d1(''out.png'' := Some (ImageFile (Nd2 [[1]]) ''L'' [[1]]))"
    by (simp add: save_image_def env0_def)
  ultimately show ?thesis using r by simp
qed

text \<open>
  C5 as amended: when the spectrum file is missing, is not an array file (a corrupt file,
  or a file of another kind), or holds an array of one dimension, \<open>decrypt_fourier\<close>
  returns \<open>None\<close> and raises nothing, and the Fourier decryption of \<open>main\<close> then ends
  with the disk as it was: no output file is written.
\<close>

theorem decrypt_fourier_unloadable:
  assumes "d path = None \<or> d path = Some OtherFile \<or> (\<exists>a m g. d path = Some (ImageFile a m g))
           \<or> (\<exists>xs. d path = Some (NpyFile (Nd1 xs)))"
  shows "decrypt_fourier env d path = None
       \<and> (strip c = ''2'' \<and> lower (strip operation) = ''d'' \<and> strip sf = path \<longrightarrow>
            main env \<lparr>stdin = c # operation # sf # out # rest, disk = d\<rparr>
            = (None, \<lparr>stdin = rest, disk = d\<rparr>))"
  using decrypt_fourier_load_fails [where d = d and path = path and env = env, OF assms]
  by (auto simp: main_fourier_decrypt)

theorem decrypt_fourier_unloadable_witness:
  "decrypt_fourier env0 d2 ''missing.npy'' = None
   \<and> decrypt_fourier env0 d2 ''notes.txt'' = None
   \<and> decrypt_fourier env0 (d2(''v.npy'' := Some (NpyFile (Nd1 [1, 2])))) ''v.npy'' = None
   \<and> main env0 \<lparr>stdin = [''2'', ''d'', ''notes.txt'', ''out.png''], disk = d2\<rparr>
       = (None, \<lparr>stdin = [], disk = d2\<rparr>)"
proof -
  let ?P = "\<lambda>d path. d path = None \<or> d path = Some OtherFile
      \<or> (\<exists>a m g. d path = Some (ImageFile a m g)) \<or> (\<exists>xs. d path = Some (NpyFile (Nd1 xs)))"
  have a: "?P d2 ''missing.npy''" and b: "?P d2 ''notes.txt''"
    and c: "?P (d2(''v.npy'' := Some (NpyFile (Nd1 [1, 2])))) ''v.npy''"
    by (simp_all add: d2_def)
  from decrypt_fourier_unloadable [where d = d2 and path = "''missing.npy''" and env = env0, OF a]
    decrypt_fourier_unloadable [where d = "d2(''v.npy'' := Some (NpyFile (Nd1 [1, 2])))"
      and path = "''v.npy''" and env = env0, OF c]
    decrypt_fourier_unloadable [where d = d2 and path = "''notes.txt''" and env = env0
      and c = "''2''" and operation = "''d''" and sf = "''notes.txt''" and out = "''out.png''"
      and rest = "[]", OF b]
  show ?thesis by (simp add: strip_plain)
qed

section \<open>Shapes are preserved\<close>

lemma width_uniform: "xs \<noteq> [] \<Longrightarrow> \<forall>r\<in>set xs. length r = n \<Longrightarrow> width xs = n"
  by (cases xs) (simp_all add: width_def)

lemma width_rev:
  assumes "\<forall>r\<in>set xs. length r = width xs"
  shows "width (rev xs) = width xs"
proof (cases "xs = []")
  case True
  then show ?thesis by simp
next
  case False
  then have "rev xs \<noteq> []" by simp
  moreover from assms have "\<forall>r\<in>set (rev xs). length r = width xs" by simp
  ultimately show ?thesis by (rule width_uniform)
qed

lemma width_map_map: "width (map (map f) xs) = width xs"
  by (cases xs) (simp_all add: width_def)

lemma concat_map_map: "concat (map (map g) a) = map g (concat a)"
  by (simp add: map_concat)

lemma shape_map_samples: "shape (map_samples f a) = shape a"
proof (cases a)
  case (Nd3 rows)
  have "width (concat (map (map (map f)) rows)) = width (concat rows)"
    by (simp only: concat_map_map width_map_map)
  with Nd3 show ?thesis by (simp add: width_map_map)
qed (simp_all add: width_map_map)

lemma width_concat_rev:
  assumes "\<forall>r\<in>set (concat rows). length r = width (concat rows)"
  shows "width (concat (rev rows)) = width (concat rows)"
proof (cases "concat rows = []")
  case True
  then have "concat (rev rows) = []" by auto
  then show ?thesis by (simp only: True)
next
  case False
  then have "concat (rev rows) \<noteq> []" by auto
  moreover have "\<forall>r\<in>set (concat (rev rows)). length r = width (concat rows)"
    using assms by auto
  ultimately show ?thesis by (rule width_uniform)
qed

lemma shape_flipud:
  assumes "rect a"
  shows "shape (np_flipud a) = shape a"
proof (cases a)
  case (Nd1 xs)
  then show ?thesis by simp
next
  case (Nd2 rows)
  with assms have "width (rev rows) = width rows" by (simp add: width_rev)
  with Nd2 show ?thesis by simp
next
  case (Nd3 rows)
  with assms have "width (rev rows) = width rows"
    and "width (concat (rev rows)) = width (concat rows)"
    by (simp_all add: width_rev width_concat_rev)
  with Nd3 show ?thesis by simp
qed

lemma length_shift: "length (shift xs) = length xs"
  by (simp add: shift_def Let_def)

lemma set_shift: "set (shift xs) = set xs"
proof -
  have "set (drop k xs @ take k xs) = set (take k xs @ drop k xs)" for k
    by (simp only: set_append Un_commute)
  then show ?thesis by (simp add: shift_def Let_def)
qed

lemma width_grid: "0 < m \<Longrightarrow> width (map (\<lambda>u. map (f u) [0..<n]) [0..<m]) = n"
  by (rule width_uniform) auto

lemma shape_grid:
  "0 < m \<Longrightarrow> shape (Nd2 (map (\<lambda>u. map (f u) [0..<n]) [0..<m])) = [m, n]"
  by (simp add: width_grid)

lemma shape_fftshift_grid:
  assumes "\<forall>r\<in>set a. length r = n" and "a \<noteq> []"
  shows "shape (np_fftshift (Nd2 a)) = [length a, n]"
proof -
  have "length (shift (map shift a)) = length a"
    by (simp add: length_shift)
  with assms(2) have "shift (map shift a) \<noteq> []"
    by (cases "shift (map shift a)") simp_all
  moreover have "\<forall>r\<in>set (shift (map shift a)). length r = n"
    using assms(1) by (auto simp: set_shift length_shift)
  ultimately have "width (shift (map shift a)) = n" by (rule width_uniform)
  then show ?thesis by (simp add: length_shift)
qed

lemma shape_fft_shifted:
  assumes "0 < m"
  shows "shape (np_fftshift (Nd2 (map (\<lambda>u. map (f u) [0..<n]) [0..<m]))) = [m, n]"
proof -
  let ?a = "map (\<lambda>u. map (f u) [0..<n]) [0..<m]"
  have "\<forall>r\<in>set ?a. length r = n" by auto
  moreover from assms have "?a \<noteq> []" by simp
  ultimately have "shape (np_fftshift (Nd2 ?a)) = [length ?a, n]"
    by (rule shape_fftshift_grid)
  then show ?thesis by simp
qed

lemma pixel_shape:
  assumes "rect x" and "0 \<le> k" and "k \<le> 255"
  shows "\<exists>y. encrypt_pixels x k = Inr y \<and> shape y = shape x"
    and "\<exists>y. decrypt_pixels x k = Inr y \<and> shape y = shape x"
  using assms
  by (simp_all add: encrypt_pixels_def decrypt_pixels_def np_xor_def shape_map_samples
      shape_flipud flipud_map_samples)

lemma encrypt_fourier_shape:
  assumes "g \<noteq> []" and "0 < width g" and "can_write env (npy_name p)"
  shows "\<exists>y d'. encrypt_fourier env (Nd2 g) p d = (Inr y, d') \<and> shape y = shape (Nd2 g)"
proof -
  let ?F = "map (\<lambda>u. map (\<lambda>v. dft2_sum (- 1) (map (map of_u8) g) u v) [0..<width g])
      [0..<length g]"
  let ?y = "map_samples (np_uint8 (cast_oob env))
      (map_samples (\<lambda>z. 20 * ln (cmod z + 1)) (np_fftshift (Nd2 ?F)))"
  from assms(1) have m: "0 < length g" by simp
  have w: "width (map (map of_u8) g) = width g" by (rule width_map_map)
  from m assms(2) w have f: "np_fft2 (map_samples of_u8 (Nd2 g)) = Inr (Nd2 ?F)"
    by (simp add: fft2_2d_def)
  from assms(3) have r: "encrypt_fourier env (Nd2 g) p d
      = (Inr ?y, d(npy_name p := Some (NpyFile (Nd2 ?F))))"
    by (simp only: encrypt_fourier_def f np_save_def if_True sum.case)
  have "shape ?y = shape (np_fftshift (Nd2 ?F))"
    by (simp only: shape_map_samples)
  also from m have "\<dots> = [length g, width g]" by (rule shape_fft_shifted)
  also have "\<dots> = shape (Nd2 g)" by simp
  finally have "shape ?y = shape (Nd2 g)" .
  with r show ?thesis by blast
qed

lemma decrypt_fourier_shape:
  assumes "d p = Some (NpyFile (Nd2 a))" and "a \<noteq> []" and "0 < width a"
  shows "\<exists>y. decrypt_fourier env d p = Some y \<and> shape y = shape (Nd2 a)"
proof -
  let ?B = "map (\<lambda>u. map (\<lambda>v. dft2_sum 1 a u v / of_nat (length a * width a)) [0..<width a])
      [0..<length a]"
  let ?y = "map_samples (np_uint8 (cast_oob env)) (map_samples cmod (Nd2 ?B))"
  from assms(2) have m: "0 < length a" by simp
  with assms(3) have f: "np_ifft2 (Nd2 a) = Inr (Nd2 ?B)"
    by (simp add: ifft2_2d_def)
  from assms(1) have l: "np_load d p = Inr (Nd2 a)"
    by (simp add: np_load_def)
  have r: "decrypt_fourier env d p = Some ?y"
    by (simp only: decrypt_fourier_def l f sum.case)
  have "shape ?y = shape (Nd2 ?B)"
    by (simp only: shape_map_samples)
  also from m have "\<dots> = [length a, width a]" by (rule shape_grid)
  also have "\<dots> = shape (Nd2 a)" by simp
  finally have "shape ?y = shape (Nd2 a)" .
  with r show ?thesis by blast
qed

lemma laplacian_shape: "shape (apply_laplacian env (Nd2 g)) = shape (Nd2 g)"
proof (cases "g = []")
  case True
  then show ?thesis by (simp add: apply_laplacian_def width_def)
next
  case False
  let ?L = "map (\<lambda>i. map (\<lambda>j. laplace_at g i j) [0..<width g]) [0..<length g]"
  from False have m: "0 < length g" by simp
  have "shape (apply_laplacian env (Nd2 g)) = shape (Nd2 ?L)"
    by (simp only: apply_laplacian_def cv2_Laplacian.simps shape_map_samples)
  also from m have "\<dots> = [length g, width g]" by (rule shape_grid)
  also have "\<dots> = shape (Nd2 g)" by simp
  finally show ?thesis .
qed

lemma u8_range: "0 \<le> uint v \<and> uint v \<le> 255" for v :: u8
  using uint_lt2p [of v] by simp

text \<open>
  C6. Every transform returns an array of the shape of its input, so of the same height
  and width: \<open>encrypt_pixels\<close> and \<open>decrypt_pixels\<close> on an image with a key in
  \<open>[0,255]\<close>; the magnitude image of \<open>encrypt_fourier\<close> on a grayscale image, when the
  spectrum file can be written; the result of \<open>decrypt_fourier\<close> on a file holding a 2-D
  spectrum; and \<open>apply_laplacian\<close> on a grayscale image, whose values all lie in
  \<open>[0,255]\<close>. Images and spectra are not empty.
\<close>

theorem transforms_preserve_shape:
  assumes "rect x" and "0 \<le> k" and "k \<le> 255"
    and "g \<noteq> []" and "0 < width g" and "can_write env (npy_name p)"
    and "d q = Some (NpyFile (Nd2 a))" and "a \<noteq> []" and "0 < width a"
  shows "(\<exists>y. encrypt_pixels x k = Inr y \<and> shape y = shape x)
       \<and> (\<exists>y. decrypt_pixels x k = Inr y \<and> shape y = shape x)
       \<and> (\<exists>y d'. encrypt_fourier env (Nd2 g) p d = (Inr y, d') \<and> shape y = shape (Nd2 g))
       \<and> (\<exists>y. decrypt_fourier env d q = Some y \<and> shape y = shape (Nd2 a))
       \<and> shape (apply_laplacian env (Nd2 g)) = shape (Nd2 g)
       \<and> (\<forall>v\<in>set (samples (apply_laplacian env (Nd2 g))). 0 \<le> uint v \<and> uint v \<le> 255)"
  using pixel_shape [OF assms(1-3)] encrypt_fourier_shape [OF assms(4-6), of d]
    decrypt_fourier_shape [where d = d and p = q and env = env, OF assms(7-9)]
    laplacian_shape [of env g] u8_range
  by blast

lemma sample_at_single: "sample_at [[s]] i j = uint s"
  by (simp add: sample_at_def border101_def width_def)

lemma laplacian_single: "apply_laplacian env (Nd2 [[s]]) = Nd2 [[0]]"
  by (simp add: apply_laplacian_def width_def laplace_at_def sample_at_single np_uint8_def)

theorem transforms_preserve_shape_witness:
  "rect (Nd2 [[10, 20], [30, 40 :: u8]]) \<and> (0::int) \<le> 5 \<and> (5::int) \<le> 255
   \<and> shape (Nd2 [[10, 20], [30, 40 :: u8]]) = [2, 2]
   \<and> (\<exists>y. encrypt_pixels (Nd2 [[10, 20], [30, 40]]) 5 = Inr y \<and> shape y = [2, 2])
   \<and> (\<exists>y. decrypt_pixels (Nd2 [[10, 20], [30, 40]]) 5 = Inr y \<and> shape y = [2, 2])
   \<and> (\<exists>y d'. encrypt_fourier env0 (Nd2 [[255]]) ''s'' d3 = (Inr y, d') \<and> shape y = [1, 1])
   \<and> (\<exists>y. decrypt_fourier env0 d3 ''f.npy'' = Some y \<and> shape y = [1, 1])
   \<and> shape (apply_laplacian env0 (Nd2 [[255]])) = [1, 1]
   \<and> samples (apply_laplacian env0 (Nd2 [[255]])) = [0]"
proof -
  have h: "rect (Nd2 [[10, 20], [30, 40 :: u8]])" "(0::int) \<le> 5" "(5::int) \<le> 255"
    "[[255 :: u8]] \<noteq> []" "0 < width [[255 :: u8]]" "can_write env0 (npy_name ''s'')"
    "d3 ''f.npy'' = Some (NpyFile (Nd2 [[4]]))" "[[4 :: complex]] \<noteq> []"
    "0 < width [[4 :: complex]]"
    by (simp_all add: width_def env0_def d3_def)
  have s: "shape (Nd2 [[10, 20], [30, 40 :: u8]]) = [2, 2]" "shape (Nd2 [[255 :: u8]]) = [1, 1]"
    "shape (Nd2 [[4 :: complex]]) = [1, 1]"
    by (simp_all add: width_def)
  have l: "samples (apply_laplacian env0 (Nd2 [[255]])) = [0]"
    by (simp add: laplacian_single)
  from transforms_preserve_shape [where d = d3 and q = "''f.npy''", OF h] h(1-3) s l show ?thesis
    by (simp del: shape.simps rect.simps)
qed

section \<open>Properties of the magnitude image\<close>

lemma ln_256_bounds: "4 \<le> ln (256::real)" "ln (256::real) < 8"
proof -
  have "exp (4::real) = exp 1 ^ 4"
    using exp_of_nat_mult [of 4 "1::real"] by simp
  also have "\<dots> \<le> 3 ^ 4"
    by (rule power_mono) (simp_all add: exp_le)
  also have "\<dots> \<le> (256::real)" by simp
  finally show "4 \<le> ln (256::real)" by (simp add: ln_ge_iff)
  have "ln (256::real) = ln (2 ^ 8)" by simp
  also have "\<dots> = 8 * ln 2" by (simp only: ln_realpow of_nat_numeral)
  also have "\<dots> < 8" using ln_2_less_1 by simp
  finally show "ln (256::real) < 8" .
qed

lemma log10_256_bounds: "0 \<le> log 10 (256::real)" "log 10 (256::real) < 3"
proof -
  show "0 \<le> log 10 (256::real)" by simp
  have "(256::real) < 10 powr 3" by simp
  then show "log 10 (256::real) < 3"
    by (simp add: log_less_iff)
qed

lemma uint_word_of_floor:
  assumes "0 \<le> r" and "r < 256"
  shows "uint (word_of_int \<lfloor>r\<rfloor> :: u8) = \<lfloor>r\<rfloor>"
proof -
  from assms have "0 \<le> \<lfloor>r\<rfloor>" and "\<lfloor>r\<rfloor> < 256" by (simp_all add: floor_less_iff)
  then show ?thesis by (simp add: uint_word_of_int take_bit_int_eq_self)
qed

lemma uint_np_uint8:
  assumes "0 \<le> r" and "r < 256"
  shows "uint (np_uint8 oob r) = \<lfloor>r\<rfloor>"
  using assms by (simp add: np_uint8_def uint_word_of_floor)

lemma fft2_single: "np_fft2 (map_samples of_u8 (Nd2 [[255]])) = Inr (Nd2 [[255]])"
  by (simp add: fft2_2d_def width_def dft2_sum_single of_u8_def)

lemma shift_single: "shift [x] = [x]"
  by (simp add: shift_def)

lemma encrypt_fourier_white_pixel:
  "fst (encrypt_fourier env0 (Nd2 [[255]]) ''s.npy'' d2)
     = Inr (Nd2 [[np_uint8 (cast_oob env0) (20 * ln 256)]])"
proof -
  have "can_write env0 (npy_name ''s.npy'')" by (simp add: env0_def)
  then have "np_save env0 d2 ''s.npy'' (Nd2 [[255]])
      = Inr (d2(npy_name ''s.npy'' := Some (NpyFile (Nd2 [[255]]))))"
    by (simp add: np_save_def)
  then have "encrypt_fourier env0 (Nd2 [[255]]) ''s.npy'' d2
      = (Inr (map_samples (np_uint8 (cast_oob env0))
               (map_samples (\<lambda>z. 20 * ln (cmod z + 1)) (np_fftshift (Nd2 [[255]])))),
         d2(npy_name ''s.npy'' := Some (NpyFile (Nd2 [[255]]))))"
    by (simp only: encrypt_fourier_def fft2_single sum.case)
  then show ?thesis by (simp add: shift_single)
qed

lemma magnitude_spec_white_pixel:
  "magnitude_spec (Nd2 [[255]]) = Nd2 [[clip_u8 (20 * log 10 256)]]"
  by (simp add: magnitude_spec_def shift_single)

text \<open>
  C4 as claimed: the magnitude image is \<open>20 * log10 (|fftshift F| + 1)\<close>, clipped to
  \<open>[0,255]\<close>. On the image of one white pixel the spectrum is \<open>[[255]]\<close>, and the image
  returned by \<open>encrypt_fourier\<close> differs from that: its sample is the integer part of
  \<open>20 * ln 256\<close>, which is at least 80, where \<open>20 * log10 256\<close> is below 60.
\<close>

theorem magnitude_not_log10:
  "np_fft2 (map_samples of_u8 (Nd2 [[255]])) = Inr (Nd2 [[255]])
   \<and> fst (encrypt_fourier env0 (Nd2 [[255]]) ''s.npy'' d2)
       \<noteq> Inr (magnitude_spec (Nd2 [[255]]))"
proof -
  let ?c = "np_uint8 (cast_oob env0) (20 * ln 256)"
  let ?s = "clip_u8 (20 * log 10 256)"
  have c0: "(0::real) \<le> 20 * ln 256" and c1: "20 * ln 256 < (256::real)"
    using ln_256_bounds by simp_all
  have "uint ?c = \<lfloor>20 * ln (256::real)\<rfloor>"
    using c0 c1 by (rule uint_np_uint8)
  moreover have "80 \<le> \<lfloor>20 * ln (256::real)\<rfloor>"
    using ln_256_bounds(1) by (simp add: le_floor_iff)
  ultimately have c: "80 \<le> uint ?c" by simp
  have s0: "(0::real) \<le> 20 * log 10 256" and s1: "20 * log 10 256 < (60::real)"
    using log10_256_bounds by simp_all
  then have "?s = word_of_int \<lfloor>20 * log 10 (256::real)\<rfloor>"
    by (simp add: clip_u8_def)
  moreover from s0 s1 have "uint (word_of_int \<lfloor>20 * log 10 (256::real)\<rfloor> :: u8)
      = \<lfloor>20 * log 10 (256::real)\<rfloor>"
    by (intro uint_word_of_floor) simp_all
  moreover from s1 have "\<lfloor>20 * log 10 (256::real)\<rfloor> < 60"
    by (simp add: floor_less_iff)
  ultimately have "uint ?s < 60" by simp
  with c have "?c \<noteq> ?s" by auto
  then show ?thesis
    by (simp only: fft2_single encrypt_fourier_white_pixel magnitude_spec_white_pixel)
      simp
qed

lemma shift_rotate: "shift xs = rotate (length xs - length xs div 2) xs"
proof (cases "length xs \<le> 1")
  case True
  then consider "xs = []" | x where "xs = [x]"
    by (cases xs) (auto simp: le_Suc_eq)
  then show ?thesis by cases (simp_all add: shift_def)
next
  case False
  then have "length xs - length xs div 2 < length xs" by simp
  then show ?thesis
    by (simp add: shift_def Let_def rotate_drop_take)
qed

lemma shift_nth:
  "i < length xs \<Longrightarrow>
     shift xs ! i = xs ! ((i + (length xs - length xs div 2)) mod length xs)"
  by (simp add: shift_rotate nth_rotate add.commute)

lemma shift2_nth:
  assumes "\<forall>r\<in>set F. length r = n" and "i < length F" and "j < n"
  shows "shift (map shift F) ! i ! j
       = F ! ((i + (length F - length F div 2)) mod length F)
           ! ((j + (n - n div 2)) mod n)"
proof -
  let ?i = "(i + (length F - length F div 2)) mod length F"
  from assms(2) have "0 < length F" by (cases F) simp_all
  then have i': "?i < length F" by (rule mod_less_divisor)
  with assms(1) have len: "length (F ! ?i) = n" by simp
  from assms(2) have "shift (map shift F) ! i = map shift F ! ?i"
    using shift_nth [of i "map shift F"] by simp
  also from i' have "\<dots> = shift (F ! ?i)" by simp
  finally have "shift (map shift F) ! i ! j = shift (F ! ?i) ! j" by simp
  also from assms(3) len have "\<dots> = F ! ?i ! ((j + (n - n div 2)) mod n)"
    using shift_nth [of j "F ! ?i"] by simp
  finally show ?thesis .
qed

lemma fft2_2d_grid:
  assumes "fft2_2d a = Inr F"
  shows "length F = length a" and "\<forall>r\<in>set F. length r = width a" and "width F = width a"
    and "0 < length a"
proof -
  from assms have m: "0 < length a" and n: "0 < width a"
    and F: "F = map (\<lambda>u. map (\<lambda>v. dft2_sum (- 1) a u v) [0..<width a]) [0..<length a]"
    by (auto simp: fft2_2d_def split: if_splits)
  from F show "length F = length a" by simp
  from F show "\<forall>r\<in>set F. length r = width a" by auto
  from m show "width F = width a" unfolding F by (rule width_grid)
  from m show "0 < length a" .
qed

lemma magnitude_sample:
  assumes "\<forall>r\<in>set F. length r = n" and "i < length F" and "j < n"
  shows "j < length (map (map c) (map (map f) (shift (map shift F))) ! i)"
    and "map (map c) (map (map f) (shift (map shift F))) ! i ! j
       = c (f (F ! ((i + (length F - length F div 2)) mod length F)
                 ! ((j + (n - n div 2)) mod n)))"
proof -
  let ?S = "shift (map shift F)"
  from assms(2) have i: "i < length ?S" by (simp add: length_shift)
  then have "?S ! i \<in> set ?S" by (rule nth_mem)
  then have "?S ! i \<in> set (map shift F)" by (simp only: set_shift)
  with assms(1) have len: "length (?S ! i) = n" by (auto simp: length_shift)
  with i assms(3) show "j < length (map (map c) (map (map f) ?S) ! i)" by simp
  from i len assms(3) have "map (map c) (map (map f) ?S) ! i ! j = c (f (?S ! i ! j))"
    by simp
  also have "?S ! i ! j = F ! ((i + (length F - length F div 2)) mod length F)
      ! ((j + (n - n div 2)) mod n)"
    using assms by (rule shift2_nth)
  finally show "map (map c) (map (map f) ?S) ! i ! j
       = c (f (F ! ((i + (length F - length F div 2)) mod length F)
                 ! ((j + (n - n div 2)) mod n)))" .
qed

text \<open>
  C4 as amended: for a grayscale image with 2-D Fourier transform \<open>F\<close>, when the spectrum
  file can be written, \<open>encrypt_fourier\<close> returns a magnitude image with the rows and
  columns of \<open>F\<close> whose sample at \<open>(i, j)\<close> is the integer part of
  \<open>20 * ln (|fftshift F| + 1)\<close> at \<open>(i, j)\<close>, with the natural logarithm, wherever that
  value is below 256. The shifted spectrum at \<open>(i, j)\<close> is \<open>F\<close> at
  \<open>((i + M - M div 2) mod M, (j + N - N div 2) mod N)\<close>.
\<close>

theorem magnitude_natural_log:
  assumes "np_fft2 (map_samples of_u8 (Nd2 g)) = Inr (Nd2 F)"
    and "can_write env (npy_name p)"
  shows "\<exists>y d'. encrypt_fourier env (Nd2 g) p d = (Inr (Nd2 y), d')
       \<and> length y = length F
       \<and> (\<forall>i<length F. \<forall>j<width F.
            j < length (y ! i)
            \<and> (20 * ln (cmod (F ! ((i + (length F - length F div 2)) mod length F)
                              ! ((j + (width F - width F div 2)) mod width F)) + 1) < 256
               \<longrightarrow> uint (y ! i ! j)
                   = \<lfloor>20 * ln (cmod (F ! ((i + (length F - length F div 2)) mod length F)
                              ! ((j + (width F - width F div 2)) mod width F)) + 1)\<rfloor>))"
proof -
  let ?c = "np_uint8 (cast_oob env)"
  let ?f = "\<lambda>z. 20 * ln (cmod z + 1)"
  let ?y = "map (map ?c) (map (map ?f) (shift (map shift F)))"
  from assms(1) have "fft2_2d (map (map of_u8) g) = Inr F"
    by (cases "fft2_2d (map (map of_u8) g)") simp_all
  note grid = fft2_2d_grid [OF this]
  from grid(2,3) have rows: "\<forall>r\<in>set F. length r = width F" by simp
  from assms(2) have "np_save env d p (Nd2 F) = Inr (d(npy_name p := Some (NpyFile (Nd2 F))))"
    by (simp add: np_save_def)
  then have "encrypt_fourier env (Nd2 g) p d
      = (Inr (map_samples ?c (map_samples ?f (np_fftshift (Nd2 F)))),
         d(npy_name p := Some (NpyFile (Nd2 F))))"
    by (simp only: encrypt_fourier_def assms(1) sum.case)
  then have r: "encrypt_fourier env (Nd2 g) p d
      = (Inr (Nd2 ?y), d(npy_name p := Some (NpyFile (Nd2 F))))"
    by simp
  have l: "length ?y = length F" by (simp add: length_shift)
  have "j < length (?y ! i)
      \<and> (?f (F ! ((i + (length F - length F div 2)) mod length F)
               ! ((j + (width F - width F div 2)) mod width F)) < 256
         \<longrightarrow> uint (?y ! i ! j)
             = \<lfloor>?f (F ! ((i + (length F - length F div 2)) mod length F)
                       ! ((j + (width F - width F div 2)) mod width F))\<rfloor>)"
    if "i < length F" and "j < width F" for i j
  proof -
    let ?z = "F ! ((i + (length F - length F div 2)) mod length F)
                ! ((j + (width F - width F div 2)) mod width F)"
    note s = magnitude_sample [OF rows that, of ?c ?f]
    have "0 \<le> ?f ?z" by simp
    then have "?f ?z < 256 \<longrightarrow> uint (?c (?f ?z)) = \<lfloor>?f ?z\<rfloor>"
      by (simp add: uint_np_uint8)
    with s show ?thesis by simp
  qed
  with r l show ?thesis by blast
qed

theorem magnitude_natural_log_witness:
  "np_fft2 (map_samples of_u8 (Nd2 [[255]])) = Inr (Nd2 [[255]])
   \<and> can_write env0 (npy_name ''s.npy'')
   \<and> 20 * ln (256::real) < 256
   \<and> (\<exists>y d'. encrypt_fourier env0 (Nd2 [[255]]) ''s.npy'' d2 = (Inr (Nd2 y), d')
         \<and> length y = 1 \<and> 0 < length (y ! 0)
         \<and> uint (y ! 0 ! 0) = \<lfloor>20 * ln (256::real)\<rfloor>)"
proof -
  have w: "can_write env0 (npy_name ''s.npy'')" by (simp add: env0_def)
  have b: "20 * ln (256::real) < 256" using ln_256_bounds(2) by simp
  from magnitude_natural_log [OF fft2_single w, of d2]
  obtain y d' where r: "encrypt_fourier env0 (Nd2 [[255]]) ''s.npy'' d2 = (Inr (Nd2 y), d')"
    and l: "length y = length [[255 :: complex]]"
    and a: "\<forall>i<length [[255 :: complex]]. \<forall>j<width [[255 :: complex]].
            j < length (y ! i)
            \<and> (20 * ln (cmod ([[255 :: complex]]
                  ! ((i + (length [[255 :: complex]] - length [[255 :: complex]] div 2))
                       mod length [[255 :: complex]])
                  ! ((j + (width [[255 :: complex]] - width [[255 :: complex]] div 2))
                       mod width [[255 :: complex]])) + 1) < 256
               \<longrightarrow> uint (y ! i ! j)
                   = \<lfloor>20 * ln (cmod ([[255 :: complex]]
                  ! ((i + (length [[255 :: complex]] - length [[255 :: complex]] div 2))
                       mod length [[255 :: complex]])
                  ! ((j + (width [[255 :: complex]] - width [[255 :: complex]] div 2))
                       mod width [[255 :: complex]])) + 1)\<rfloor>)"
    by blast
  from a have "0 < length (y ! 0)
      \<and> (20 * ln (256::real) < 256 \<longrightarrow> uint (y ! 0 ! 0) = \<lfloor>20 * ln (256::real)\<rfloor>)"
    by (simp add: width_def)
  with b have "0 < length (y ! 0)" and "uint (y ! 0 ! 0) = \<lfloor>20 * ln (256::real)\<rfloor>"
    by simp_all
  with r l have "\<exists>y d'. encrypt_fourier env0 (Nd2 [[255]]) ''s.npy'' d2 = (Inr (Nd2 y), d')
         \<and> length y = 1 \<and> 0 < length (y ! 0)
         \<and> uint (y ! 0 ! 0) = \<lfloor>20 * ln (256::real)\<rfloor>"
    by auto
  with fft2_single w b show ?thesis by blast
qed

end
